theory Spec2Isabelle
  imports Complex_Main "HOL-Library.Log_Nat"
begin

section \<open>Shop API: data model\<close>

text \<open>
  The service of \<^verbatim>\<open>main.py\<close> keeps two module-level dictionaries, \<^verbatim>\<open>items_db\<close> and
  \<^verbatim>\<open>carts_db\<close>, and ten request handlers that read and mutate them. The handlers are
  embedded as functions that take the stores and return the response together with the
  stores after the call. A raised \<^verbatim>\<open>HTTPException\<close> is the left summand of the response.

  Python integers are \<^typ>\<open>int\<close>. A finite Python float is the real number it denotes,
  so the price of an Item is a \<^typ>\<open>real\<close> and comparisons of prices are those of the
  reals. The one float operation of the source that rounds is the addition
  \<^verbatim>\<open>cart.price += item.price\<close>; it is embedded with its rounding, see \<open>float_add\<close> below.
\<close>

subsection \<open>Float addition\<close>

text \<open>
  Python floats are IEEE 754 binary64 numbers: 53 significant bits, exponents of the
  leading bit from \<open>-1022\<close> to \<open>1023\<close>, subnormal numbers below with the fixed spacing
  \<open>2\<^sup>-\<^sup>1\<^sup>0\<^sup>7\<^sup>4\<close>. The sum of two floats is the exact sum rounded to the nearest float,
  a tie going to the float whose last bit is even; a rounded sum of magnitude
  \<open>2\<^sup>1\<^sup>0\<^sup>2\<^sup>4\<close> or more is an infinity.
\<close>

definition two_to :: "int \<Rightarrow> real" where
  "two_to e = (if 0 \<le> e then 2 ^ nat e else 1 / 2 ^ nat (- e))"

text \<open>
  The exponent of the spacing of the floats around a magnitude \<open>a\<close>: 52 below the exponent
  of the leading bit of \<open>a\<close>, and \<open>-1074\<close> for subnormal magnitudes. The leading bit is read
  off the integer part of \<open>a * 2\<^sup>1\<^sup>0\<^sup>7\<^sup>4\<close>.
\<close>

definition ulp_exponent :: "real \<Rightarrow> int" where
  "ulp_exponent a = max (bitlen \<lfloor>a * 2 ^ 1074\<rfloor> - 1127) (- 1074)"

definition round_half_even :: "real \<Rightarrow> int" where
  "round_half_even x =
     (let n = \<lfloor>x\<rfloor>; d = x - of_int n
      in if d < 1 / 2 then n else if 1 / 2 < d then n + 1 else if even n then n else n + 1)"

definition round_double :: "real \<Rightarrow> real" where
  "round_double x =
     (let e = ulp_exponent \<bar>x\<bar> in of_int (round_half_even (x / two_to e)) * two_to e)"

text \<open>
  The price of a cart is a float that the handlers only add finite prices to: it is
  finite or, after an overflow, an infinity.
\<close>

datatype pyfloat = Finite real | PlusInf | MinusInf

fun float_add :: "pyfloat \<Rightarrow> real \<Rightarrow> pyfloat" where
  "float_add (Finite x) y =
     (let r = round_double (x + y)
      in if 2 ^ 1024 \<le> r then PlusInf else if r \<le> - (2 ^ 1024) then MinusInf else Finite r)"
| "float_add PlusInf y = PlusInf"
| "float_add MinusInf y = MinusInf"

text \<open>\<^verbatim>\<open>x >= m\<close> and \<^verbatim>\<open>x <= m\<close> for a float \<open>x\<close> and a finite bound \<open>m\<close>.\<close>

fun float_ge :: "pyfloat \<Rightarrow> real \<Rightarrow> bool" where
  "float_ge (Finite x) m = (m \<le> x)"
| "float_ge PlusInf m = True"
| "float_ge MinusInf m = False"

fun float_le :: "pyfloat \<Rightarrow> real \<Rightarrow> bool" where
  "float_le (Finite x) m = (x \<le> m)"
| "float_le PlusInf m = False"
| "float_le MinusInf m = True"

subsection \<open>Records of the data model\<close>

text \<open>
  Modelled from the spec: the classes \<^verbatim>\<open>Item\<close>, \<^verbatim>\<open>ItemPost\<close>, \<^verbatim>\<open>CartItem\<close> and
  \<^verbatim>\<open>Cart\<close> are imported from \<^verbatim>\<open>lecture_2.hw.shop_api.models\<close>, which is absent. The
  fields, their types and their defaults are those of the spec's data model: an Item has
  \<^verbatim>\<open>id\<close>, \<^verbatim>\<open>name\<close>, \<^verbatim>\<open>price\<close> and \<^verbatim>\<open>deleted\<close> (default false); a CartItem has \<^verbatim>\<open>id\<close>,
  \<^verbatim>\<open>name\<close> and \<^verbatim>\<open>quantity\<close>; a Cart has \<^verbatim>\<open>id\<close>, \<^verbatim>\<open>items\<close> (created empty) and \<^verbatim>\<open>price\<close>
  (a running total, zero at creation); an ItemPost carries \<^verbatim>\<open>name\<close> and \<^verbatim>\<open>price\<close>.
\<close>

record Item =
  item_id :: int
  item_name :: string
  item_price :: real
  item_deleted :: bool

record ItemPost =
  post_name :: string
  post_price :: real

record CartItem =
  ci_id :: int
  ci_name :: string
  ci_quantity :: int

record Cart =
  cart_id :: int
  cart_items :: "CartItem list"
  cart_price :: pyfloat

text \<open>The constructor calls of the source, with the defaults of the data model.\<close>

definition mk_Item :: "int \<Rightarrow> string \<Rightarrow> real \<Rightarrow> Item" where
  "mk_Item i n p = \<lparr>item_id = i, item_name = n, item_price = p, item_deleted = False\<rparr>"

definition mk_CartItem :: "int \<Rightarrow> string \<Rightarrow> int \<Rightarrow> CartItem" where
  "mk_CartItem i n q = \<lparr>ci_id = i, ci_name = n, ci_quantity = q\<rparr>"

definition mk_Cart :: "int \<Rightarrow> Cart" where
  "mk_Cart i = \<lparr>cart_id = i, cart_items = [], cart_price = Finite 0\<rparr>"

text \<open>The failures of the handlers: the three HTTP statuses they raise (404, 304, 422).\<close>

datatype error = NotFound | NotModified | UnprocessableEntity

text \<open>The values of a PATCH body (\<^verbatim>\<open>dict[str, Any]\<close>): a string, a number, or any other
  JSON value.\<close>

datatype field_value = StrValue string | NumValue real | OtherValue

subsection \<open>Python dictionaries\<close>

text \<open>
  A \<^verbatim>\<open>dict\<close> keeps its keys in insertion order, and \<^verbatim>\<open>list(d.values())\<close> is read in that
  order by both list handlers, so a dictionary is an association list. Assigning to a
  key that is present replaces the value where it stands; assigning to a new key appends.
\<close>

type_synonym ('k, 'v) dict = "('k \<times> 'v) list"

fun dict_set :: "('k, 'v) dict \<Rightarrow> 'k \<Rightarrow> 'v \<Rightarrow> ('k, 'v) dict" where
  "dict_set [] k v = [(k, v)]"
| "dict_set ((k', v') # d) k v = (if k' = k then (k, v) # d else (k', v') # dict_set d k v)"

definition dict_get :: "('k, 'v) dict \<Rightarrow> 'k \<Rightarrow> 'v option" where
  "dict_get d k = map_of d k"

definition dict_keys :: "('k, 'v) dict \<Rightarrow> 'k list" where
  "dict_keys d = map fst d"

definition dict_values :: "('k, 'v) dict \<Rightarrow> 'v list" where
  "dict_values d = map snd d"

definition dict_len :: "('k, 'v) dict \<Rightarrow> int" where
  "dict_len d = int (length d)"

text \<open>\<^verbatim>\<open>xs[offset:offset + limit]\<close> for \<^verbatim>\<open>offset >= 0\<close> and \<^verbatim>\<open>limit >= 0\<close>.\<close>

definition py_slice :: "'a list \<Rightarrow> nat \<Rightarrow> nat \<Rightarrow> 'a list" where
  "py_slice xs offset limit = take limit (drop offset xs)"

subsection \<open>The stores\<close>

record shop =
  items_db :: "(int, Item) dict"
  carts_db :: "(int, Cart) dict"

definition empty_shop :: shop where
  "empty_shop = \<lparr>items_db = [], carts_db = []\<rparr>"

section \<open>Item handlers\<close>

definition create_item :: "shop \<Rightarrow> ItemPost \<Rightarrow> Item \<times> shop" where
  "create_item s item =
     (let iid = dict_len (items_db s) + 1;
          new_item = mk_Item iid (post_name item) (post_price item)
      in (new_item, s\<lparr>items_db := dict_set (items_db s) iid new_item\<rparr>))"

text \<open>
  \<^verbatim>\<open>items_db.get(id)\<close> is the lookup \<open>dict_get\<close>, and \<^verbatim>\<open>not item\<close> holds of its result
  exactly when it is \<^verbatim>\<open>None\<close>: a stored Item is an object, which is true. In the same
  way \<^verbatim>\<open>id not in items_db\<close> followed by \<^verbatim>\<open>items_db[id]\<close> is the lookup finding nothing
  or finding the Item.
\<close>

definition get_item :: "shop \<Rightarrow> int \<Rightarrow> error + Item" where
  "get_item s i =
     (case dict_get (items_db s) i of
        None \<Rightarrow> Inl NotFound
      | Some item \<Rightarrow> if item_deleted item then Inl NotFound else Inr item)"

text \<open>The condition of the list comprehension of \<^verbatim>\<open>get_item_list\<close>.\<close>

definition item_passes :: "real option \<Rightarrow> real option \<Rightarrow> bool \<Rightarrow> Item \<Rightarrow> bool" where
  "item_passes min_price max_price show_deleted item =
     ((show_deleted \<or> \<not> item_deleted item) \<and>
      (case min_price of None \<Rightarrow> True | Some m \<Rightarrow> item_price item \<ge> m) \<and>
      (case max_price of None \<Rightarrow> True | Some m \<Rightarrow> item_price item \<le> m))"

text \<open>
  \<^verbatim>\<open>offset\<close> is a \<^verbatim>\<open>NonNegativeInt\<close> and \<^verbatim>\<open>limit\<close> a \<^verbatim>\<open>PositiveInt\<close>: the framework
  rejects other values before the handler runs, so both are natural numbers here.
\<close>

definition get_item_list ::
  "shop \<Rightarrow> nat \<Rightarrow> nat \<Rightarrow> real option \<Rightarrow> real option \<Rightarrow> bool \<Rightarrow> Item list" where
  "get_item_list s offset limit min_price max_price show_deleted =
     filter (item_passes min_price max_price show_deleted)
       (py_slice (dict_values (items_db s)) offset limit)"

definition update_item :: "shop \<Rightarrow> int \<Rightarrow> ItemPost \<Rightarrow> (error + Item) \<times> shop" where
  "update_item s i item =
     (if i \<notin> set (dict_keys (items_db s)) then (Inl NotFound, s)
      else let new_item = mk_Item i (post_name item) (post_price item)
           in (Inr new_item, s\<lparr>items_db := dict_set (items_db s) i new_item\<rparr>))"

definition allowed_fields :: "string set" where
  "allowed_fields = {''name'', ''price''}"

text \<open>
  \<^verbatim>\<open>setattr(item, key, value)\<close>, which the loop calls for the two allowed keys only. It
  checks nothing and always succeeds: a string becomes the name, a number the price. The
  source assigns values of any other type as well. Such a value is no name or price of
  the data model and the field of the record cannot hold it: the record is left as it
  is, and no theorem below says what the field holds after such an assignment.
\<close>

definition setattr_item :: "Item \<Rightarrow> string \<Rightarrow> field_value \<Rightarrow> Item" where
  "setattr_item item key v =
     (if key = ''name'' then (case v of StrValue n \<Rightarrow> item\<lparr>item_name := n\<rparr> | _ \<Rightarrow> item)
      else if key = ''price'' then (case v of NumValue p \<Rightarrow> item\<lparr>item_price := p\<rparr> | _ \<Rightarrow> item)
      else item)"

text \<open>
  The loop of \<^verbatim>\<open>patch_item\<close> over \<^verbatim>\<open>body.items()\<close>, in the order of the body. It mutates
  the stored object at each allowed key and raises at the first key that is not allowed:
  the result is the exception, if any, and the object as the loop left it.
\<close>

fun patch_fields :: "Item \<Rightarrow> (string \<times> field_value) list \<Rightarrow> error option \<times> Item" where
  "patch_fields item [] = (None, item)"
| "patch_fields item ((key, v) # body) =
     (if key \<in> allowed_fields then patch_fields (setattr_item item key v) body
      else (Some UnprocessableEntity, item))"

definition patch_item ::
  "shop \<Rightarrow> int \<Rightarrow> (string \<times> field_value) list \<Rightarrow> (error + Item) \<times> shop" where
  "patch_item s i body =
     (case dict_get (items_db s) i of
        None \<Rightarrow> (Inl NotFound, s)
      | Some item \<Rightarrow>
          if item_deleted item then (Inl NotModified, s)
          else let (err, item') = patch_fields item body;
                   s' = s\<lparr>items_db := dict_set (items_db s) i item'\<rparr>
               in (case err of None \<Rightarrow> Inr item' | Some e \<Rightarrow> Inl e, s'))"

text \<open>
  \<^verbatim>\<open>delete_item\<close> sets the flag of the stored object; the entry stays under its key.
\<close>

definition delete_item :: "shop \<Rightarrow> int \<Rightarrow> (error + string) \<times> shop" where
  "delete_item s i =
     (case dict_get (items_db s) i of
        None \<Rightarrow> (Inl NotFound, s)
      | Some item \<Rightarrow>
          (Inr ''Item marked as deleted'',
           s\<lparr>items_db := dict_set (items_db s) i (item\<lparr>item_deleted := True\<rparr>)\<rparr>))"

section \<open>Cart handlers\<close>

definition create_cart :: "shop \<Rightarrow> int \<times> shop" where
  "create_cart s =
     (let cid = dict_len (carts_db s) + 1
      in (cid, s\<lparr>carts_db := dict_set (carts_db s) cid (mk_Cart cid)\<rparr>))"

definition get_cart :: "shop \<Rightarrow> int \<Rightarrow> error + Cart" where
  "get_cart s i =
     (case dict_get (carts_db s) i of None \<Rightarrow> Inl NotFound | Some cart \<Rightarrow> Inr cart)"

definition cart_quantity :: "Cart \<Rightarrow> int" where
  "cart_quantity cart = sum_list (map ci_quantity (cart_items cart))"

definition cart_passes ::
  "real option \<Rightarrow> real option \<Rightarrow> int option \<Rightarrow> int option \<Rightarrow> Cart \<Rightarrow> bool" where
  "cart_passes min_price max_price min_quantity max_quantity cart =
     ((case min_price of None \<Rightarrow> True | Some m \<Rightarrow> float_ge (cart_price cart) m) \<and>
      (case max_price of None \<Rightarrow> True | Some m \<Rightarrow> float_le (cart_price cart) m) \<and>
      (case min_quantity of None \<Rightarrow> True | Some q \<Rightarrow> cart_quantity cart \<ge> q) \<and>
      (case max_quantity of None \<Rightarrow> True | Some q \<Rightarrow> cart_quantity cart \<le> q))"

definition get_cart_list ::
  "shop \<Rightarrow> nat \<Rightarrow> nat \<Rightarrow> real option \<Rightarrow> real option \<Rightarrow> int option \<Rightarrow> int option \<Rightarrow> Cart list"
  where
  "get_cart_list s offset limit min_price max_price min_quantity max_quantity =
     filter (cart_passes min_price max_price min_quantity max_quantity)
       (py_slice (dict_values (carts_db s)) offset limit)"

text \<open>
  The \<^verbatim>\<open>for\<close> loop of \<^verbatim>\<open>add_to_cart\<close>: the first CartItem with the item's id gets its
  quantity incremented and the loop breaks (\<open>Some\<close>); \<open>None\<close> is the loop running to its
  end, which takes the \<^verbatim>\<open>else\<close> branch.
\<close>

fun bump_quantity :: "CartItem list \<Rightarrow> int \<Rightarrow> CartItem list option" where
  "bump_quantity [] i = None"
| "bump_quantity (cart_item # rest) i =
     (if ci_id cart_item = i
      then Some (cart_item\<lparr>ci_quantity := ci_quantity cart_item + 1\<rparr> # rest)
      else map_option ((#) cart_item) (bump_quantity rest i))"

definition add_item_to :: "Cart \<Rightarrow> Item \<Rightarrow> Cart" where
  "add_item_to cart item =
     (let items' = (case bump_quantity (cart_items cart) (item_id item) of
                      Some its \<Rightarrow> its
                    | None \<Rightarrow> cart_items cart @ [mk_CartItem (item_id item) (item_name item) 1])
      in cart\<lparr>cart_items := items', cart_price := float_add (cart_price cart) (item_price item)\<rparr>)"

text \<open>
  The two checks of \<^verbatim>\<open>add_to_cart\<close> come first, the cart's before the item's, and both
  raise 404. The cart object is then mutated where it is stored.
\<close>

definition add_to_cart :: "shop \<Rightarrow> int \<Rightarrow> int \<Rightarrow> (error + Cart) \<times> shop" where
  "add_to_cart s cid iid =
     (case dict_get (carts_db s) cid of
        None \<Rightarrow> (Inl NotFound, s)
      | Some cart \<Rightarrow>
          (case dict_get (items_db s) iid of
             None \<Rightarrow> (Inl NotFound, s)
           | Some item \<Rightarrow>
               if item_deleted item then (Inl NotFound, s)
               else let cart' = add_item_to cart item
                    in (Inr cart', s\<lparr>carts_db := dict_set (carts_db s) cid cart'\<rparr>)))"

section \<open>Sequences of requests\<close>

datatype request =
    CreateItem ItemPost
  | GetItem int
  | GetItemList nat nat "real option" "real option" bool
  | UpdateItem int ItemPost
  | PatchItem int "(string \<times> field_value) list"
  | DeleteItem int
  | CreateCart
  | GetCart int
  | GetCartList nat nat "real option" "real option" "int option" "int option"
  | AddToCart int int

text \<open>The stores after a request; the four read handlers leave them as they are.\<close>

fun exec :: "shop \<Rightarrow> request \<Rightarrow> shop" where
  "exec s (CreateItem item) = snd (create_item s item)"
| "exec s (GetItem i) = s"
| "exec s (GetItemList offset limit mn mx sd) = s"
| "exec s (UpdateItem i item) = snd (update_item s i item)"
| "exec s (PatchItem i body) = snd (patch_item s i body)"
| "exec s (DeleteItem i) = snd (delete_item s i)"
| "exec s CreateCart = snd (create_cart s)"
| "exec s (GetCart i) = s"
| "exec s (GetCartList offset limit mn mx mnq mxq) = s"
| "exec s (AddToCart cid iid) = snd (add_to_cart s cid iid)"

fun run :: "shop \<Rightarrow> request list \<Rightarrow> shop" where
  "run s [] = s"
| "run s (r # rs) = run (exec s r) rs"

text \<open>
  Modelled from the spec: \<^verbatim>\<open>ItemPost\<close> is absent; the spec has the boundary reject a
  negative \<^verbatim>\<open>price\<close> (status 422) before \<^verbatim>\<open>create_item\<close> or \<^verbatim>\<open>update_item\<close> runs.
\<close>

fun valid_request :: "request \<Rightarrow> bool" where
  "valid_request (CreateItem item) = (0 \<le> post_price item)"
| "valid_request (UpdateItem i item) = (0 \<le> post_price item)"
| "valid_request r = True"

section \<open>Predicates of the properties\<close>

text \<open>
  The ids of a store: the keys are \<open>1, 2, \<dots>\<close> up to the number of entries, in the order
  of creation, and every entry carries its key as its own id.
\<close>

definition ids_ok :: "('a \<Rightarrow> int) \<Rightarrow> (int, 'a) dict \<Rightarrow> bool" where
  "ids_ok idf d = (dict_keys d = [1..dict_len d] \<and> list_all (\<lambda>(k, x). idf x = k) d)"

definition store_inv :: "shop \<Rightarrow> bool" where
  "store_inv s = (ids_ok item_id (items_db s) \<and> ids_ok cart_id (carts_db s))"

definition prices_nonneg :: "shop \<Rightarrow> bool" where
  "prices_nonneg s = list_all (\<lambda>item. 0 \<le> item_price item) (dict_values (items_db s))"

text \<open>
  The keys of a body that come before its first key that is not allowed.
\<close>

definition keys_before :: "(string \<times> field_value) list \<Rightarrow> string list" where
  "keys_before body = map fst (takeWhile (\<lambda>(key, v). key \<in> allowed_fields) body)"

text \<open>
  Item List in the words of the spec: the window \<open>[offset, offset + limit)\<close> of positions
  over all stored items in creation order, soft-deleted ones included, and of the items
  at these positions those that are shown (not deleted, unless \<^verbatim>\<open>show_deleted\<close>) and whose
  price is within the inclusive bounds that are given.
\<close>

definition window :: "nat \<Rightarrow> nat \<Rightarrow> nat \<Rightarrow> nat list" where
  "window offset limit n = [k \<leftarrow> [0..<n]. offset \<le> k \<and> k < offset + limit]"

definition price_within :: "real option \<Rightarrow> real option \<Rightarrow> real \<Rightarrow> bool" where
  "price_within min_price max_price p =
     ((case min_price of None \<Rightarrow> True | Some m \<Rightarrow> m \<le> p) \<and>
      (case max_price of None \<Rightarrow> True | Some m \<Rightarrow> p \<le> m))"

definition item_list_spec ::
  "shop \<Rightarrow> nat \<Rightarrow> nat \<Rightarrow> real option \<Rightarrow> real option \<Rightarrow> bool \<Rightarrow> Item list" where
  "item_list_spec s offset limit min_price max_price show_deleted =
     (let stored = dict_values (items_db s)
      in [item \<leftarrow> map (\<lambda>k. stored ! k) (window offset limit (length stored)).
            (show_deleted \<or> \<not> item_deleted item) \<and>
            price_within min_price max_price (item_price item)])"

text \<open>
  A float: a real that rounding leaves as it is, below the overflow threshold.
\<close>

definition is_float :: "real \<Rightarrow> bool" where
  "is_float x = (round_double x = x \<and> \<bar>x\<bar> < 2 ^ 1024)"

text \<open>
  The item of the spec's end-to-end scenario, and two more, for the concrete instances
  below.
\<close>

definition pen :: ItemPost where
  "pen = \<lparr>post_name = ''pen'', post_price = 3 / 2\<rparr>"

definition crate :: ItemPost where
  "crate = \<lparr>post_name = ''crate'', post_price = 10000000000000000\<rparr>"

definition stamp :: ItemPost where
  "stamp = \<lparr>post_name = ''stamp'', post_price = 1\<rparr>"

section \<open>Dictionary lemmas\<close>

lemma dict_get_set: "dict_get (dict_set d k v) k' = (if k' = k then Some v else dict_get d k')"
  by (induction d) (auto simp: dict_get_def)

lemma dict_keys_set:
  "dict_keys (dict_set d k v) = (if k \<in> set (dict_keys d) then dict_keys d else dict_keys d @ [k])"
  by (induction d) (force simp: dict_keys_def)+

lemma dict_get_None_iff: "dict_get d k = None \<longleftrightarrow> k \<notin> set (dict_keys d)"
  by (simp add: dict_get_def dict_keys_def map_of_eq_None_iff)

lemma dict_set_same: "dict_get d k = Some v \<Longrightarrow> dict_set d k v = d"
  by (induction d) (auto simp: dict_get_def split: if_splits)

lemma dict_set_twice: "dict_set (dict_set d k v) k w = dict_set d k w"
  by (induction d) auto

lemma dict_set_new: "k \<notin> set (dict_keys d) \<Longrightarrow> dict_set d k v = d @ [(k, v)]"
  by (induction d) (auto simp: dict_keys_def)

lemmas handler_defs =
  create_item_def get_item_def get_item_list_def update_item_def patch_item_def
  delete_item_def create_cart_def get_cart_def get_cart_list_def add_to_cart_def
  add_item_to_def item_passes_def cart_passes_def cart_quantity_def setattr_item_def
  allowed_fields_def mk_Item_def mk_Cart_def mk_CartItem_def empty_shop_def pen_def
  dict_get_def dict_keys_def dict_values_def dict_len_def py_slice_def Let_def

section \<open>PartialUpdate with an empty mapping\<close>

text \<open>
  Claim C10. For an Item that is stored and not soft-deleted, \<^verbatim>\<open>patch_item\<close> with an
  empty body raises nothing: it returns the Item as it was stored, with the same name,
  price and deleted flag, and the stores are the same after the call.
\<close>

theorem patch_item_empty_body:
  assumes "dict_get (items_db s) i = Some item" and "\<not> item_deleted item"
  shows "patch_item s i [] = (Inr item, s)"
  using assms by (simp add: patch_item_def dict_set_same)

theorem patch_item_empty_body_witness:
  "dict_get (items_db (run empty_shop [CreateItem pen])) 1 = Some (mk_Item 1 ''pen'' (3 / 2)) \<and>
   \<not> item_deleted (mk_Item 1 ''pen'' (3 / 2)) \<and>
   patch_item (run empty_shop [CreateItem pen]) 1 []
     = (Inr (mk_Item 1 ''pen'' (3 / 2)), run empty_shop [CreateItem pen])"
proof -
  have stored: "dict_get (items_db (run empty_shop [CreateItem pen])) 1
      = Some (mk_Item 1 ''pen'' (3 / 2))"
    by (simp add: handler_defs)
  have active: "\<not> item_deleted (mk_Item 1 ''pen'' (3 / 2))"
    by (simp add: mk_Item_def)
  from patch_item_empty_body [OF stored active] stored active show ?thesis
    by simp
qed

section \<open>Failing AddItem\<close>

text \<open>
  Claim C9. \<^verbatim>\<open>add_to_cart\<close> fails exactly when the cart id is absent, or the item id is
  absent, or the item is soft-deleted; whenever it fails, the failure is NotFound and the
  item store and the cart store are what they were before the call.
\<close>

theorem add_to_cart_failure:
  "((\<exists>e. fst (add_to_cart s cid iid) = Inl e) \<longleftrightarrow>
      (dict_get (carts_db s) cid = None \<or>
       (case dict_get (items_db s) iid of None \<Rightarrow> True | Some item \<Rightarrow> item_deleted item))) \<and>
   ((\<exists>e. fst (add_to_cart s cid iid) = Inl e) \<longrightarrow>
      add_to_cart s cid iid = (Inl NotFound, s))"
  by (auto simp: add_to_cart_def Let_def split: option.splits if_splits)

theorem add_to_cart_failure_witness:
  "(\<exists>e. fst (add_to_cart (run empty_shop [CreateItem pen, CreateCart, DeleteItem 1]) 1 1) = Inl e) \<and>
   add_to_cart (run empty_shop [CreateItem pen, CreateCart, DeleteItem 1]) 1 1
     = (Inl NotFound, run empty_shop [CreateItem pen, CreateCart, DeleteItem 1])"
proof -
  have "case dict_get (items_db (run empty_shop [CreateItem pen, CreateCart, DeleteItem 1])) 1 of
          None \<Rightarrow> True | Some item \<Rightarrow> item_deleted item"
    by (simp add: handler_defs)
  with add_to_cart_failure [of "run empty_shop [CreateItem pen, CreateCart, DeleteItem 1]" 1 1]
  show ?thesis by blast
qed

section \<open>Ids of the stores\<close>

lemma dict_keys_subset: "set (dict_keys d) \<subseteq> set (dict_keys (dict_set d k v))"
  by (auto simp: dict_keys_set)

lemma dict_len_set:
  "dict_len (dict_set d k v) = (if k \<in> set (dict_keys d) then dict_len d else dict_len d + 1)"
  by (induction d) (force simp: dict_keys_def dict_len_def)+

lemma list_all_dict_set:
  "list_all P d \<Longrightarrow> P (k, v) \<Longrightarrow> list_all P (dict_set d k v)"
  by (induction d) auto

lemma dict_get_Some_keys: "dict_get d k = Some v \<Longrightarrow> k \<in> set (dict_keys d)"
  using dict_get_None_iff [of d k] by auto

lemma dict_get_Some_mem: "dict_get d k = Some v \<Longrightarrow> (k, v) \<in> set d"
  by (simp add: dict_get_def map_of_SomeD)

lemma ids_ok_empty: "ids_ok idf []"
  by (simp add: ids_ok_def dict_keys_def dict_len_def)

lemma ids_ok_fresh: "ids_ok idf d \<Longrightarrow> dict_len d + 1 \<notin> set (dict_keys d)"
  by (simp add: ids_ok_def)

lemma ids_ok_get: "ids_ok idf d \<Longrightarrow> dict_get d k = Some v \<Longrightarrow> idf v = k"
  by (auto simp: ids_ok_def list_all_iff dest: dict_get_Some_mem)

lemma ids_ok_distinct: "ids_ok idf d \<Longrightarrow> distinct (dict_keys d)"
  by (simp add: ids_ok_def)

lemma ids_ok_ids: "ids_ok idf d \<Longrightarrow> map idf (dict_values d) = dict_keys d"
proof -
  assume "ids_ok idf d"
  then have "\<forall>kv\<in>set d. idf (snd kv) = fst kv"
    by (auto simp: ids_ok_def list_all_iff)
  then show ?thesis
    by (simp add: dict_values_def dict_keys_def)
qed

lemma ids_ok_replace:
  assumes "ids_ok idf d" and "k \<in> set (dict_keys d)" and "idf v = k"
  shows "ids_ok idf (dict_set d k v)"
  using assms by (simp add: ids_ok_def dict_keys_set dict_len_set list_all_dict_set)

lemma ids_ok_append:
  assumes "ids_ok idf d" and "idf v = dict_len d + 1"
  shows "ids_ok idf (dict_set d (dict_len d + 1) v)"
proof -
  from assms(1) have fresh: "dict_len d + 1 \<notin> set (dict_keys d)"
    by (rule ids_ok_fresh)
  have "[1..dict_len d + 1] = [1..dict_len d] @ [dict_len d + 1]"
    by (simp add: upto_rec2 dict_len_def)
  with assms fresh show ?thesis
    by (simp add: ids_ok_def dict_keys_set dict_len_set list_all_dict_set)
qed

lemma patch_fields_id: "patch_fields item body = (err, item') \<Longrightarrow> item_id item' = item_id item"
proof (induction item body rule: patch_fields.induct)
  case (1 item)
  then show ?case by simp
next
  case (2 item key v body)
  then show ?case
    by (auto simp: setattr_item_def split: if_splits option.splits field_value.splits)
qed

lemma patch_fields_deleted:
  "patch_fields item body = (err, item') \<Longrightarrow> item_deleted item' = item_deleted item"
proof (induction item body rule: patch_fields.induct)
  case (1 item)
  then show ?case by simp
next
  case (2 item key v body)
  then show ?case
    by (auto simp: setattr_item_def split: if_splits option.splits field_value.splits)
qed

lemma store_inv_empty: "store_inv empty_shop"
  by (simp add: store_inv_def empty_shop_def ids_ok_empty)

lemma store_inv_create_item: "store_inv s \<Longrightarrow> store_inv (snd (create_item s p))"
  by (simp add: store_inv_def create_item_def Let_def ids_ok_append mk_Item_def)

lemma store_inv_create_cart: "store_inv s \<Longrightarrow> store_inv (snd (create_cart s))"
  by (simp add: store_inv_def create_cart_def Let_def ids_ok_append mk_Cart_def)

lemma store_inv_update_item: "store_inv s \<Longrightarrow> store_inv (snd (update_item s i p))"
  by (simp add: store_inv_def update_item_def Let_def ids_ok_replace mk_Item_def)

lemma store_inv_delete_item:
  assumes "store_inv s"
  shows "store_inv (snd (delete_item s i))"
proof (cases "dict_get (items_db s) i")
  case None
  with assms show ?thesis by (simp add: delete_item_def)
next
  case (Some item)
  with assms have "ids_ok item_id (dict_set (items_db s) i (item\<lparr>item_deleted := True\<rparr>))"
    by (intro ids_ok_replace) (auto simp: store_inv_def dict_get_Some_keys ids_ok_get)
  with assms Some show ?thesis by (simp add: delete_item_def store_inv_def)
qed

lemma store_inv_patch_item:
  assumes "store_inv s"
  shows "store_inv (snd (patch_item s i body))"
proof (cases "dict_get (items_db s) i")
  case None
  with assms show ?thesis by (simp add: patch_item_def)
next
  case (Some item)
  obtain err item' where pf: "patch_fields item body = (err, item')"
    by (cases "patch_fields item body")
  with assms Some have "ids_ok item_id (dict_set (items_db s) i item')"
    by (intro ids_ok_replace)
      (auto simp: store_inv_def dict_get_Some_keys ids_ok_get dest: patch_fields_id)
  with assms Some pf show ?thesis by (simp add: patch_item_def store_inv_def)
qed

lemma store_inv_add_to_cart:
  assumes "store_inv s"
  shows "store_inv (snd (add_to_cart s cid iid))"
proof (cases "dict_get (carts_db s) cid")
  case None
  with assms show ?thesis by (simp add: add_to_cart_def)
next
  case (Some cart)
  have "ids_ok cart_id (dict_set (carts_db s) cid (add_item_to cart item))" for item
    using assms Some
    by (intro ids_ok_replace)
      (auto simp: store_inv_def dict_get_Some_keys ids_ok_get add_item_to_def Let_def)
  with assms Some show ?thesis
    by (simp add: add_to_cart_def store_inv_def Let_def split: option.splits)
qed

lemma store_inv_exec: "store_inv s \<Longrightarrow> store_inv (exec s r)"
  by (cases r)
    (simp_all add: store_inv_create_item store_inv_create_cart store_inv_update_item
      store_inv_delete_item store_inv_patch_item store_inv_add_to_cart)

lemma store_inv_run: "store_inv s \<Longrightarrow> store_inv (run s rs)"
  by (induction rs arbitrary: s) (simp_all add: store_inv_exec)

lemma items_keys_exec: "set (dict_keys (items_db s)) \<subseteq> set (dict_keys (items_db (exec s r)))"
  by (cases r)
    (auto simp: create_item_def update_item_def patch_item_def delete_item_def create_cart_def
      add_to_cart_def Let_def dict_keys_set split: option.splits prod.splits)

lemma carts_keys_exec: "set (dict_keys (carts_db s)) \<subseteq> set (dict_keys (carts_db (exec s r)))"
  by (cases r)
    (auto simp: create_item_def update_item_def patch_item_def delete_item_def create_cart_def
      add_to_cart_def Let_def dict_keys_set split: option.splits prod.splits)

lemma items_keys_run: "set (dict_keys (items_db s)) \<subseteq> set (dict_keys (items_db (run s rs)))"
proof (induction rs arbitrary: s)
  case Nil
  show ?case by simp
next
  case (Cons r rs)
  from items_keys_exec [of s r] Cons [of "exec s r"] show ?case by auto
qed

lemma carts_keys_run: "set (dict_keys (carts_db s)) \<subseteq> set (dict_keys (carts_db (run s rs)))"
proof (induction rs arbitrary: s)
  case Nil
  show ?case by simp
next
  case (Cons r rs)
  from carts_keys_exec [of s r] Cons [of "exec s r"] show ?case by auto
qed

lemma run_append: "run s (rs @ rs') = run (run s rs) rs'"
  by (induction rs arbitrary: s) simp_all

text \<open>
  Claim C4. In every state reached from the empty stores by any sequence of requests, the
  keys of the item store are pairwise distinct, and so are the ids of the stored Items;
  the same holds of the cart store. A create assigns the number of entries plus one and
  appends the new entry under that id, as the last of the store. The id a create
  assigns after any further requests is none of the ids in use now: the requests keep
  every key, so no id is handed out twice.
\<close>

theorem ids_unique_never_reused:
  "distinct (dict_keys (items_db (run empty_shop rs))) \<and>
   distinct (map item_id (dict_values (items_db (run empty_shop rs)))) \<and>
   distinct (dict_keys (carts_db (run empty_shop rs))) \<and>
   distinct (map cart_id (dict_values (carts_db (run empty_shop rs)))) \<and>
   item_id (fst (create_item (run empty_shop rs) p)) = dict_len (items_db (run empty_shop rs)) + 1 \<and>
   fst (create_cart (run empty_shop rs)) = dict_len (carts_db (run empty_shop rs)) + 1 \<and>
   items_db (run empty_shop (rs @ [CreateItem p]))
     = items_db (run empty_shop rs)
       @ [(dict_len (items_db (run empty_shop rs)) + 1, fst (create_item (run empty_shop rs) p))] \<and>
   carts_db (run empty_shop (rs @ [CreateCart]))
     = carts_db (run empty_shop rs)
       @ [(dict_len (carts_db (run empty_shop rs)) + 1,
           mk_Cart (dict_len (carts_db (run empty_shop rs)) + 1))] \<and>
   item_id (fst (create_item (run empty_shop (rs @ rs')) p))
     \<notin> set (dict_keys (items_db (run empty_shop rs))) \<and>
   fst (create_cart (run empty_shop (rs @ rs')))
     \<notin> set (dict_keys (carts_db (run empty_shop rs))) \<and>
   set (dict_keys (items_db (run empty_shop rs)))
     \<subseteq> set (dict_keys (items_db (run empty_shop (rs @ rs')))) \<and>
   set (dict_keys (carts_db (run empty_shop rs)))
     \<subseteq> set (dict_keys (carts_db (run empty_shop (rs @ rs'))))"
proof -
  let ?s = "run empty_shop rs" and ?t = "run empty_shop (rs @ rs')"
  have inv: "store_inv ?s" and inv': "store_inv ?t"
    by (simp_all add: store_inv_run store_inv_empty)
  have items_mono: "set (dict_keys (items_db ?s)) \<subseteq> set (dict_keys (items_db ?t))"
    and carts_mono: "set (dict_keys (carts_db ?s)) \<subseteq> set (dict_keys (carts_db ?t))"
    by (simp_all add: run_append items_keys_run carts_keys_run)
  from inv have d1: "distinct (dict_keys (items_db ?s))"
    and d2: "distinct (map item_id (dict_values (items_db ?s)))"
    and d3: "distinct (dict_keys (carts_db ?s))"
    and d4: "distinct (map cart_id (dict_values (carts_db ?s)))"
    by (auto simp: store_inv_def ids_ok_ids ids_ok_distinct)
  have c1: "item_id (fst (create_item ?s p)) = dict_len (items_db ?s) + 1"
    and c2: "fst (create_cart ?s) = dict_len (carts_db ?s) + 1"
    by (simp_all add: create_item_def create_cart_def Let_def mk_Item_def)
  from inv have fresh: "dict_len (items_db ?s) + 1 \<notin> set (dict_keys (items_db ?s))"
    and fresh': "dict_len (carts_db ?s) + 1 \<notin> set (dict_keys (carts_db ?s))"
    by (auto simp: store_inv_def dest: ids_ok_fresh)
  have k1: "items_db (run empty_shop (rs @ [CreateItem p]))
      = items_db ?s @ [(dict_len (items_db ?s) + 1, fst (create_item ?s p))]"
    using fresh by (simp add: run_append create_item_def Let_def dict_set_new)
  have k2: "carts_db (run empty_shop (rs @ [CreateCart]))
      = carts_db ?s @ [(dict_len (carts_db ?s) + 1, mk_Cart (dict_len (carts_db ?s) + 1))]"
    using fresh' by (simp add: run_append create_cart_def Let_def dict_set_new)
  from inv' have "dict_len (items_db ?t) + 1 \<notin> set (dict_keys (items_db ?t))"
    and "dict_len (carts_db ?t) + 1 \<notin> set (dict_keys (carts_db ?t))"
    by (auto simp: store_inv_def dest: ids_ok_fresh)
  with items_mono carts_mono
  have f1: "item_id (fst (create_item ?t p)) \<notin> set (dict_keys (items_db ?s))"
    and f2: "fst (create_cart ?t) \<notin> set (dict_keys (carts_db ?s))"
    by (auto simp: create_item_def create_cart_def Let_def mk_Item_def)
  from d1 d2 d3 d4 c1 c2 k1 k2 f1 f2 items_mono carts_mono show ?thesis
    by blast
qed

section \<open>Replace\<close>

text \<open>
  Claim C6. For an id that is a key of the item store, whether the stored Item is active
  or soft-deleted, \<^verbatim>\<open>update_item\<close> stores a fresh record with the given name and price
  and with \<open>deleted = False\<close>, so that Get finds it again; the keys, the other Items and
  the carts stay as they are. It fails, with NotFound and without any change, exactly
  when the id is no key of the store (the keys are the ids assigned so far).
\<close>

theorem update_item_replaces:
  "(i \<in> set (dict_keys (items_db s)) \<longrightarrow>
      fst (update_item s i p) = Inr (mk_Item i (post_name p) (post_price p)) \<and>
      dict_get (items_db (snd (update_item s i p))) i
        = Some \<lparr>item_id = i, item_name = post_name p, item_price = post_price p,
                item_deleted = False\<rparr> \<and>
      get_item (snd (update_item s i p)) i = Inr (mk_Item i (post_name p) (post_price p)) \<and>
      dict_keys (items_db (snd (update_item s i p))) = dict_keys (items_db s) \<and>
      (\<forall>j. j \<noteq> i \<longrightarrow>
         dict_get (items_db (snd (update_item s i p))) j = dict_get (items_db s) j) \<and>
      carts_db (snd (update_item s i p)) = carts_db s) \<and>
   (i \<notin> set (dict_keys (items_db s)) \<longrightarrow> update_item s i p = (Inl NotFound, s))"
  by (simp add: update_item_def Let_def dict_get_set dict_keys_set get_item_def mk_Item_def)

theorem update_item_replaces_witness:
  "1 \<in> set (dict_keys (items_db (run empty_shop [CreateItem pen, DeleteItem 1]))) \<and>
   get_item (run empty_shop [CreateItem pen, DeleteItem 1]) 1 = Inl NotFound \<and>
   get_item (snd (update_item (run empty_shop [CreateItem pen, DeleteItem 1]) 1
                    \<lparr>post_name = ''ink'', post_price = 2\<rparr>)) 1
     = Inr \<lparr>item_id = 1, item_name = ''ink'', item_price = 2, item_deleted = False\<rparr>"
proof -
  let ?s = "run empty_shop [CreateItem pen, DeleteItem 1]"
  have present: "1 \<in> set (dict_keys (items_db ?s))"
    by (simp add: handler_defs)
  have gone: "get_item ?s 1 = Inl NotFound"
    by (simp add: handler_defs)
  from update_item_replaces [of 1 ?s "\<lparr>post_name = ''ink'', post_price = 2\<rparr>"] present gone
  show ?thesis by (simp add: mk_Item_def)
qed

section \<open>SoftDelete\<close>

text \<open>
  Claim C8. For an id that is a key of the item store, \<^verbatim>\<open>delete_item\<close> succeeds, and a
  second call succeeds as well and returns the stores of the first: the Item is stored
  with \<open>deleted = True\<close> and its other fields as before, the keys, the other Items and the
  carts are unchanged. It fails, with NotFound and without any change, exactly when the
  id is no key of the store.
\<close>

theorem delete_item_idempotent:
  "(i \<in> set (dict_keys (items_db s)) \<longrightarrow>
      fst (delete_item s i) = Inr ''Item marked as deleted'' \<and>
      delete_item (snd (delete_item s i)) i
        = (Inr ''Item marked as deleted'', snd (delete_item s i)) \<and>
      (\<exists>item. dict_get (items_db s) i = Some item \<and>
         dict_get (items_db (snd (delete_item s i))) i = Some (item\<lparr>item_deleted := True\<rparr>)) \<and>
      dict_keys (items_db (snd (delete_item s i))) = dict_keys (items_db s) \<and>
      (\<forall>j. j \<noteq> i \<longrightarrow>
         dict_get (items_db (snd (delete_item s i))) j = dict_get (items_db s) j) \<and>
      carts_db (snd (delete_item s i)) = carts_db s) \<and>
   (i \<notin> set (dict_keys (items_db s)) \<longrightarrow> delete_item s i = (Inl NotFound, s))"
proof (cases "dict_get (items_db s) i")
  case None
  then have "i \<notin> set (dict_keys (items_db s))"
    by (simp add: dict_get_None_iff)
  with None show ?thesis
    by (simp add: delete_item_def)
next
  case (Some item)
  then have "i \<in> set (dict_keys (items_db s))"
    by (rule dict_get_Some_keys)
  with Some show ?thesis
    by (simp add: delete_item_def dict_get_set dict_keys_set dict_set_twice)
qed

theorem delete_item_idempotent_witness:
  "1 \<in> set (dict_keys (items_db (run empty_shop [CreateItem pen]))) \<and>
   run empty_shop [CreateItem pen, DeleteItem 1, DeleteItem 1]
     = run empty_shop [CreateItem pen, DeleteItem 1] \<and>
   dict_get (items_db (run empty_shop [CreateItem pen, DeleteItem 1])) 1
     = Some \<lparr>item_id = 1, item_name = ''pen'', item_price = 3 / 2, item_deleted = True\<rparr>"
proof -
  let ?s = "run empty_shop [CreateItem pen]"
  have present: "1 \<in> set (dict_keys (items_db ?s))"
    by (simp add: handler_defs)
  have stored: "dict_get (items_db (run empty_shop [CreateItem pen, DeleteItem 1])) 1
     = Some \<lparr>item_id = 1, item_name = ''pen'', item_price = 3 / 2, item_deleted = True\<rparr>"
    by (simp add: handler_defs)
  from delete_item_idempotent [of 1 ?s] present
  have "delete_item (snd (delete_item ?s 1)) 1
        = (Inr ''Item marked as deleted'', snd (delete_item ?s 1))"
    by blast
  then have "snd (delete_item (snd (delete_item ?s 1)) 1) = snd (delete_item ?s 1)"
    by simp
  with present stored show ?thesis by simp
qed

section \<open>Item List\<close>

lemma window_upt: "window offset limit n = [offset..<min (offset + limit) n]"
  unfolding window_def
proof (induction n)
  case 0
  show ?case by simp
next
  case (Suc n)
  then show ?case
    by (cases "offset + limit = Suc n") (auto simp: min_def)
qed

lemma py_slice_nth:
  "py_slice xs offset limit = map (\<lambda>k. xs ! k) (window offset limit (length xs))"
proof (rule nth_equalityI)
  show len: "length (py_slice xs offset limit)
      = length (map (\<lambda>k. xs ! k) (window offset limit (length xs)))"
    by (auto simp: window_upt py_slice_def min_def)
  fix i
  assume "i < length (py_slice xs offset limit)"
  then have "i < limit" and "offset + i < length xs"
    by (auto simp: py_slice_def)
  then show "py_slice xs offset limit ! i
      = map (\<lambda>k. xs ! k) (window offset limit (length xs)) ! i"
    by (simp add: window_upt py_slice_def)
qed

lemma item_passes_spec:
  "item_passes mn mx sd item =
     ((sd \<or> \<not> item_deleted item) \<and> price_within mn mx (item_price item))"
  by (simp add: item_passes_def price_within_def)

lemma py_slice_all: "length xs \<le> limit \<Longrightarrow> py_slice xs 0 limit = xs"
  by (simp add: py_slice_def)

lemma py_slice_beyond: "length xs \<le> offset \<Longrightarrow> py_slice xs offset limit = []"
  by (simp add: py_slice_def)

text \<open>
  Claim C3. \<^verbatim>\<open>get_item_list\<close> returns the items of the spec's description: the window
  \<open>[offset, offset + limit)\<close> over all stored items in creation order, soft-deleted ones
  included, and then those of the window that pass \<^verbatim>\<open>show_deleted\<close> and the inclusive,
  independently optional price bounds. On a store of three items the window of
  \<open>offset = 0, limit = 10\<close> is the whole store, so that all three are returned when they
  pass the filters (always with \<^verbatim>\<open>show_deleted\<close> and no bounds; with the defaults when none
  is soft-deleted), and \<open>offset = 5, limit = 10\<close> returns the empty list.
\<close>

theorem get_item_list_slice_then_filter:
  "get_item_list s offset limit mn mx sd = item_list_spec s offset limit mn mx sd \<and>
   (length (items_db s) = 3 \<longrightarrow>
      get_item_list s 0 10 mn mx sd
        = filter (item_passes mn mx sd) (dict_values (items_db s)) \<and>
      get_item_list s 0 10 None None True = dict_values (items_db s) \<and>
      (list_all (\<lambda>item. \<not> item_deleted item) (dict_values (items_db s)) \<longrightarrow>
         get_item_list s 0 10 None None False = dict_values (items_db s)) \<and>
      get_item_list s 5 10 mn mx sd = [])"
proof -
  have general: "get_item_list s offset limit mn mx sd = item_list_spec s offset limit mn mx sd"
    unfolding get_item_list_def item_list_spec_def Let_def
    by (simp add: py_slice_nth item_passes_spec [abs_def])
  have three: "get_item_list s 0 10 mn' mx' sd' = filter (item_passes mn' mx' sd') (dict_values (items_db s))"
    and beyond: "get_item_list s 5 10 mn mx sd = []"
    if "length (items_db s) = 3" for mn' mx' sd'
    using that by (simp_all add: get_item_list_def py_slice_all py_slice_beyond dict_values_def)
  have shown: "filter (item_passes None None True) xs = xs" for xs
    by (simp add: item_passes_def)
  have active: "filter (item_passes None None False) xs = xs"
    if "list_all (\<lambda>item. \<not> item_deleted item) xs" for xs
    using that by (induction xs) (simp_all add: item_passes_def)
  from general three beyond shown active show ?thesis
    by simp
qed

theorem get_item_list_slice_then_filter_witness:
  "length (items_db (run empty_shop [CreateItem pen, CreateItem pen, CreateItem pen])) = 3 \<and>
   get_item_list (run empty_shop [CreateItem pen, CreateItem pen, CreateItem pen])
       0 10 None None True
     = [mk_Item 1 ''pen'' (3 / 2), mk_Item 2 ''pen'' (3 / 2), mk_Item 3 ''pen'' (3 / 2)] \<and>
   get_item_list (run empty_shop [CreateItem pen, CreateItem pen, CreateItem pen])
       5 10 None None True = []"
proof -
  let ?s = "run empty_shop [CreateItem pen, CreateItem pen, CreateItem pen]"
  have stored: "items_db ?s
      = [(1, mk_Item 1 ''pen'' (3 / 2)), (2, mk_Item 2 ''pen'' (3 / 2)),
         (3, mk_Item 3 ''pen'' (3 / 2))]"
    by (simp add: create_item_def dict_len_def Let_def empty_shop_def pen_def)
  then have three: "length (items_db ?s) = 3"
    by simp
  from get_item_list_slice_then_filter [of ?s 0 10 None None True] three
  have whole: "get_item_list ?s 0 10 None None True = dict_values (items_db ?s)"
    and beyond: "get_item_list ?s 5 10 None None True = []"
    by blast+
  from stored have "dict_values (items_db ?s)
      = [mk_Item 1 ''pen'' (3 / 2), mk_Item 2 ''pen'' (3 / 2), mk_Item 3 ''pen'' (3 / 2)]"
    by (simp add: dict_values_def)
  with whole beyond three show ?thesis
    by simp
qed

section \<open>Soft-deleted Items are hidden\<close>

lemma dict_get_distinct: "distinct (dict_keys d) \<Longrightarrow> (k, v) \<in> set d \<Longrightarrow> dict_get d k = Some v"
  by (simp add: dict_get_def dict_keys_def)

lemma listed_item_stored: "item \<in> set (get_item_list s offset limit mn mx sd) \<Longrightarrow>
    item \<in> set (dict_values (items_db s)) \<and> item_passes mn mx sd item"
  by (auto simp: get_item_list_def py_slice_def dest: in_set_takeD in_set_dropD)

lemma listed_item_key:
  assumes "store_inv s" and "item \<in> set (get_item_list s offset limit mn mx sd)"
  shows "dict_get (items_db s) (item_id item) = Some item"
proof -
  from assms(2) have "item \<in> set (dict_values (items_db s))"
    by (simp add: listed_item_stored)
  then obtain k where mem: "(k, item) \<in> set (items_db s)"
    by (auto simp: dict_values_def)
  from assms(1) have ok: "ids_ok item_id (items_db s)"
    by (simp add: store_inv_def)
  with mem have "dict_get (items_db s) k = Some item"
    by (simp add: dict_get_distinct ids_ok_distinct)
  with ok show ?thesis
    by (simp add: ids_ok_get)
qed

text \<open>
  Claim C7. \<^verbatim>\<open>delete_item\<close> on a stored id leaves an Item with \<open>deleted = True\<close> under
  that id. For every Item stored with \<open>deleted = True\<close>: Get fails with NotFound; List
  with \<^verbatim>\<open>show_deleted = false\<close> does not return it (and, the ids being those of the store
  invariant, returns no Item of its id); List with \<^verbatim>\<open>show_deleted = true\<close> returns it
  exactly when it lies in the slice and its price is within the bounds.
\<close>

theorem soft_deleted_item_hidden:
  "(i \<in> set (dict_keys (items_db s)) \<longrightarrow>
      (\<exists>item'. dict_get (items_db (snd (delete_item s i))) i = Some item' \<and> item_deleted item')) \<and>
   (dict_get (items_db s) i = Some item \<and> item_deleted item \<longrightarrow>
      get_item s i = Inl NotFound \<and>
      item \<notin> set (get_item_list s offset limit mn mx False) \<and>
      (store_inv s \<longrightarrow> i \<notin> set (map item_id (get_item_list s offset limit mn mx False))) \<and>
      (item \<in> set (get_item_list s offset limit mn mx True) \<longleftrightarrow>
         item \<in> set (py_slice (dict_values (items_db s)) offset limit) \<and>
         price_within mn mx (item_price item)))"
proof -
  have deleted: "\<exists>item'. dict_get (items_db (snd (delete_item s i))) i = Some item' \<and> item_deleted item'"
    if "i \<in> set (dict_keys (items_db s))"
  proof -
    from that obtain old where "dict_get (items_db s) i = Some old"
      using dict_get_None_iff [of "items_db s" i] by auto
    then show ?thesis
      by (simp add: delete_item_def dict_get_set)
  qed
  have hidden: "get_item s i = Inl NotFound"
    and unlisted: "item \<notin> set (get_item_list s offset limit mn mx False)"
    and shown: "item \<in> set (get_item_list s offset limit mn mx True) \<longleftrightarrow>
         item \<in> set (py_slice (dict_values (items_db s)) offset limit) \<and>
         price_within mn mx (item_price item)"
    if "dict_get (items_db s) i = Some item" and "item_deleted item"
    using that by (auto simp: get_item_def get_item_list_def item_passes_spec)
  have no_id: "i \<notin> set (map item_id (get_item_list s offset limit mn mx False))"
    if stored: "dict_get (items_db s) i = Some item" and del: "item_deleted item"
      and inv: "store_inv s"
  proof
    assume "i \<in> set (map item_id (get_item_list s offset limit mn mx False))"
    then obtain it where it: "it \<in> set (get_item_list s offset limit mn mx False)"
      and "item_id it = i"
      by auto
    with inv have "dict_get (items_db s) i = Some it"
      using listed_item_key [of s it] by auto
    with stored have "it = item" by simp
    with it del show False
      by (auto dest: listed_item_stored simp: item_passes_def)
  qed
  from deleted hidden unlisted shown no_id show ?thesis
    by blast
qed

theorem soft_deleted_item_hidden_witness:
  "1 \<in> set (dict_keys (items_db (run empty_shop [CreateItem pen]))) \<and>
   dict_get (items_db (run empty_shop [CreateItem pen, DeleteItem 1])) 1
     = Some \<lparr>item_id = 1, item_name = ''pen'', item_price = 3 / 2, item_deleted = True\<rparr> \<and>
   get_item (run empty_shop [CreateItem pen, DeleteItem 1]) 1 = Inl NotFound \<and>
   1 \<notin> set (map item_id (get_item_list (run empty_shop [CreateItem pen, DeleteItem 1])
                             0 10 None None False)) \<and>
   \<lparr>item_id = 1, item_name = ''pen'', item_price = 3 / 2, item_deleted = True\<rparr>
     \<in> set (get_item_list (run empty_shop [CreateItem pen, DeleteItem 1]) 0 10 None None True)"
proof -
  let ?s = "run empty_shop [CreateItem pen, DeleteItem 1]"
  let ?item = "\<lparr>item_id = 1, item_name = ''pen'', item_price = 3 / 2, item_deleted = True\<rparr>"
  have present: "1 \<in> set (dict_keys (items_db (run empty_shop [CreateItem pen])))"
    by (simp add: handler_defs)
  have stored: "dict_get (items_db ?s) 1 = Some ?item"
    by (simp add: handler_defs)
  have deleted: "item_deleted ?item"
    by simp
  have inv: "store_inv ?s"
    by (rule store_inv_run) (rule store_inv_empty)
  have window: "?item \<in> set (py_slice (dict_values (items_db ?s)) 0 10)"
    by (simp add: handler_defs)
  have price: "price_within None None (item_price ?item)"
    by (simp add: price_within_def)
  from soft_deleted_item_hidden [of 1 ?s ?item 0 10 None None]
    present stored deleted inv window price
  show ?thesis
    by blast
qed

section \<open>Float addition\<close>

lemma two_to_pos: "0 < two_to e"
  by (simp add: two_to_def)

lemma two_to_Suc: "two_to (e + 1) = 2 * two_to e"
proof (cases "0 \<le> e")
  case True
  then show ?thesis by (simp add: two_to_def nat_add_distrib)
next
  case False
  then have "nat (- e) = Suc (nat (- (e + 1)))" by simp
  with False show ?thesis
    by (cases "e = - 1") (simp_all add: two_to_def)
qed

lemma two_to_scaled: "- 1074 \<le> e \<Longrightarrow> two_to e * 2 ^ 1074 = 2 ^ nat (e + 1074)"
proof (cases "0 \<le> e")
  case True
  then show ?thesis
    by (simp add: two_to_def nat_add_distrib power_add)
next
  case False
  assume "- 1074 \<le> e"
  with False have "(1074::nat) = nat (e + 1074) + nat (- e)" by simp
  then have "(2::real) ^ 1074 = 2 ^ nat (e + 1074) * 2 ^ nat (- e)"
    by (metis power_add)
  with False show ?thesis
    by (simp add: two_to_def del: power_numeral)
qed

lemma bitlen_eqI:
  assumes "2 ^ nat (b - 1) \<le> n" and "n < 2 ^ nat b" and "0 < b"
  shows "bitlen n = b"
proof -
  from assms(1) have pos: "0 < n"
    by (smt (verit) zero_less_power)
  from bitlen_bounds [OF pos]
  have lo: "2 ^ nat (bitlen n - 1) \<le> n" and hi: "n < 2 ^ nat (bitlen n)"
    by simp_all
  from pos have bpos: "0 < bitlen n"
    by (simp add: bitlen_alt_def)
  from assms(1) hi have "(2::int) ^ nat (b - 1) < 2 ^ nat (bitlen n)"
    by (rule le_less_trans)
  then have "nat (b - 1) < nat (bitlen n)"
    by simp
  moreover from lo assms(2) have "(2::int) ^ nat (bitlen n - 1) < 2 ^ nat b"
    by (rule le_less_trans)
  then have "nat (bitlen n - 1) < nat b"
    by simp
  ultimately show ?thesis
    using assms(3) bpos by linarith
qed

lemma ulp_exponent_eqI:
  assumes "two_to (e + 52) \<le> a" and "a < two_to (e + 53)" and "- 1074 \<le> e"
  shows "ulp_exponent a = e"
proof -
  let ?n = "\<lfloor>a * 2 ^ 1074\<rfloor>"
  from assms(3) have s1: "two_to (e + 52) * 2 ^ 1074 = 2 ^ nat (e + 1126)"
    and s2: "two_to (e + 53) * 2 ^ 1074 = 2 ^ nat (e + 1127)"
    using two_to_scaled [of "e + 52"] two_to_scaled [of "e + 53"]
    by (simp_all add: add.commute del: power_numeral)
  from assms(1) have "two_to (e + 52) * 2 ^ 1074 \<le> a * 2 ^ 1074"
    by (simp del: power_numeral)
  with s1 have "of_int (2 ^ nat (e + 1126)) \<le> a * 2 ^ 1074"
    by (simp del: power_numeral)
  then have lo: "2 ^ nat (e + 1126) \<le> ?n"
    by (simp only: le_floor_iff)
  from assms(2) have "a * 2 ^ 1074 < two_to (e + 53) * 2 ^ 1074"
    by (simp del: power_numeral)
  with s2 have "a * 2 ^ 1074 < of_int (2 ^ nat (e + 1127))"
    by (simp del: power_numeral)
  then have hi: "?n < 2 ^ nat (e + 1127)"
    by (simp only: floor_less_iff)
  have pred: "e + 1127 - 1 = e + 1126"
    by simp
  have "bitlen ?n = e + 1127"
  proof (rule bitlen_eqI)
    show "2 ^ nat (e + 1127 - 1) \<le> ?n"
      unfolding pred by (rule lo)
    show "?n < 2 ^ nat (e + 1127)"
      by (rule hi)
    show "0 < e + 1127"
      using assms(3) by simp
  qed
  with assms(3) show ?thesis
    by (simp add: ulp_exponent_def del: power_numeral)
qed

lemma round_half_even_int: "round_half_even (of_int m) = m"
  by (simp add: round_half_even_def)

lemma round_double_0: "round_double 0 = 0"
  by (simp add: round_double_def round_half_even_def)


lemma round_double_eqI:
  assumes "two_to (e + 52) \<le> \<bar>x\<bar>" and "\<bar>x\<bar> < two_to (e + 53)" and "- 1074 \<le> e"
    and "round_half_even (x / two_to e) = m"
  shows "round_double x = of_int m * two_to e"
proof -
  from assms(1-3) have "ulp_exponent \<bar>x\<bar> = e"
    by (rule ulp_exponent_eqI)
  with assms(4) show ?thesis
    by (simp add: round_double_def)
qed

lemma ulp_exponent_int:
  assumes "0 \<le> N"
  shows "ulp_exponent (of_int N / 2 ^ 1074) = max (bitlen N - 1127) (- 1074)"
proof -
  have "of_int N / 2 ^ 1074 * 2 ^ 1074 = (of_int N :: real)"
    by (simp del: power_numeral)
  then show ?thesis
    by (simp add: ulp_exponent_def del: power_numeral)
qed

lemma round_double_double:
  assumes "round_double p = p"
  shows "round_double (2 * p) = 2 * p"
proof (cases "p = 0")
  case True
  then show ?thesis by (simp add: round_double_0)
next
  case False
  define e where "e = ulp_exponent \<bar>p\<bar>"
  define m where "m = round_half_even (p / two_to e)"
  have e_ge: "- 1074 \<le> e"
    by (simp add: e_def ulp_exponent_def)
  from assms have p: "p = of_int m * two_to e"
    by (simp add: round_double_def e_def m_def Let_def)
  define N where "N = \<bar>m\<bar> * 2 ^ nat (e + 1074)"
  from False p have "m \<noteq> 0" by auto
  then have N_pos: "0 < N"
    by (simp add: N_def)
  have "\<bar>p\<bar> * 2 ^ 1074 = of_int \<bar>m\<bar> * (two_to e * 2 ^ 1074)"
    using two_to_pos [of e] by (subst p) (simp add: abs_mult del: power_numeral)
  also have "\<dots> = of_int N"
    by (simp add: two_to_scaled [OF e_ge] N_def del: power_numeral)
  finally have absp: "\<bar>p\<bar> = of_int N / 2 ^ 1074"
    by (simp add: field_simps del: power_numeral)
  then have abs2p: "\<bar>2 * p\<bar> = of_int (N * 2 ^ 1) / 2 ^ 1074"
    by (simp add: abs_mult del: power_numeral)
  from N_pos have e_eq: "e = max (bitlen N - 1127) (- 1074)"
    unfolding e_def absp by (intro ulp_exponent_int) simp
  from N_pos have "ulp_exponent \<bar>2 * p\<bar> = max (bitlen (N * 2 ^ 1) - 1127) (- 1074)"
    unfolding abs2p by (intro ulp_exponent_int) simp
  also from N_pos have "bitlen (N * 2 ^ 1) = bitlen N + 1"
    using bitlen_pow2 [of N 1] by simp
  finally have e2: "ulp_exponent \<bar>2 * p\<bar> = max (bitlen N - 1126) (- 1074)"
    by simp
  show ?thesis
  proof (cases "- 1074 \<le> bitlen N - 1127")
    case True
    with e_eq e2 have "ulp_exponent \<bar>2 * p\<bar> = e + 1"
      by simp
    moreover have "2 * p / two_to (e + 1) = of_int m"
      using two_to_pos [of e] by (simp add: p two_to_Suc)
    ultimately show ?thesis
      by (simp add: round_double_def round_half_even_int two_to_Suc p)
  next
    case False
    with e_eq e2 have "ulp_exponent \<bar>2 * p\<bar> = e"
      by simp
    moreover have "2 * p / two_to e = of_int (2 * m)"
      using two_to_pos [of e] by (simp add: p)
    ultimately show ?thesis
      by (simp add: round_double_def round_half_even_int p del: of_int_mult)
  qed
qed

lemma float_add_zero: "is_float p \<Longrightarrow> float_add (Finite 0) p = Finite p"
  by (auto simp: is_float_def Let_def del: power_numeral)

lemma float_add_self:
  "is_float p \<Longrightarrow> \<bar>2 * p\<bar> < 2 ^ 1024 \<Longrightarrow> float_add (Finite p) p = Finite (2 * p)"
  using round_double_double [of p] by (auto simp: is_float_def Let_def simp del: power_numeral)

lemma round_tie: "round_double 10000000000000001 = 10000000000000000"
  using round_double_eqI [of 1 10000000000000001 5000000000000000]
  by (simp add: two_to_def round_half_even_def)

lemma round_big: "round_double 10000000000000000 = 10000000000000000"
  using round_double_eqI [of 1 10000000000000000 5000000000000000]
  by (simp add: two_to_def round_half_even_def)

lemma is_float_pen: "is_float (3 / 2)"
  using round_double_eqI [of "- 52" "3 / 2" 6755399441055744]
  by (simp add: two_to_def round_half_even_def is_float_def)

section \<open>AddItem twice\<close>

lemma bump_quantity_absent: "i \<notin> set (map ci_id cs) \<Longrightarrow> bump_quantity cs i = None"
  by (induction cs) auto

lemma bump_quantity_last:
  "i \<notin> set (map ci_id cs) \<Longrightarrow> ci_id c = i \<Longrightarrow>
   bump_quantity (cs @ [c]) i = Some (cs @ [c\<lparr>ci_quantity := ci_quantity c + 1\<rparr>])"
  by (induction cs) auto

lemma add_item_to_new:
  "item_id item \<notin> set (map ci_id (cart_items cart)) \<Longrightarrow>
   add_item_to cart item =
     cart\<lparr>cart_items := cart_items cart @ [mk_CartItem (item_id item) (item_name item) 1],
          cart_price := float_add (cart_price cart) (item_price item)\<rparr>"
  by (simp add: add_item_to_def bump_quantity_absent)

lemma add_item_to_twice:
  "item_id item \<notin> set (map ci_id (cart_items cart)) \<Longrightarrow>
   add_item_to (add_item_to cart item) item =
     cart\<lparr>cart_items := cart_items cart @ [mk_CartItem (item_id item) (item_name item) 2],
          cart_price := float_add (float_add (cart_price cart) (item_price item)) (item_price item)\<rparr>"
  by (simp add: add_item_to_new) (simp add: add_item_to_def bump_quantity_last mk_CartItem_def)

text \<open>
  Claim C2, as the code has it. Let the cart exist, the item exist and not be
  soft-deleted, and the cart hold no CartItem of the item's id. After two calls of
  \<^verbatim>\<open>add_to_cart\<close> with the same cart id and item id, the second call returns the stored
  cart; its items are those it had, followed by one CartItem of the item's id and name
  with quantity 2, which is the only CartItem of that id; the item store is unchanged.
  Its price is the former price with the item's price added twice by float addition,
  each sum rounded to the nearest float. For a cart of price 0 and a price \<open>p\<close> that is a
  float, with \<open>2 p\<close> below the overflow threshold, this is exactly \<open>2 p\<close>.
\<close>

theorem add_to_cart_twice:
  assumes "dict_get (carts_db s) cid = Some cart"
    and "dict_get (items_db s) iid = Some item"
    and "\<not> item_deleted item"
    and "item_id item \<notin> set (map ci_id (cart_items cart))"
  shows "\<exists>cart2.
      fst (add_to_cart (snd (add_to_cart s cid iid)) cid iid) = Inr cart2 \<and>
      dict_get (carts_db (run s [AddToCart cid iid, AddToCart cid iid])) cid = Some cart2 \<and>
      cart_items cart2 = cart_items cart @ [mk_CartItem (item_id item) (item_name item) 2] \<and>
      filter (\<lambda>cart_item. ci_id cart_item = item_id item) (cart_items cart2)
        = [mk_CartItem (item_id item) (item_name item) 2] \<and>
      cart_price cart2
        = float_add (float_add (cart_price cart) (item_price item)) (item_price item) \<and>
      (cart_price cart = Finite 0 \<and> is_float (item_price item) \<and>
       \<bar>2 * item_price item\<bar> < 2 ^ 1024 \<longrightarrow>
         cart_price cart2 = Finite (2 * item_price item)) \<and>
      cart_id cart2 = cart_id cart \<and>
      items_db (run s [AddToCart cid iid, AddToCart cid iid]) = items_db s"
proof -
  let ?s1 = "snd (add_to_cart s cid iid)"
  from assms have first: "add_to_cart s cid iid
      = (Inr (add_item_to cart item), s\<lparr>carts_db := dict_set (carts_db s) cid (add_item_to cart item)\<rparr>)"
    by (simp add: add_to_cart_def Let_def)
  then have cart1: "dict_get (carts_db ?s1) cid = Some (add_item_to cart item)"
    and items1: "items_db ?s1 = items_db s"
    by (simp_all add: dict_get_set)
  with assms have second: "add_to_cart ?s1 cid iid
      = (Inr (add_item_to (add_item_to cart item) item),
         ?s1\<lparr>carts_db := dict_set (carts_db ?s1) cid (add_item_to (add_item_to cart item) item)\<rparr>)"
    by (simp add: add_to_cart_def Let_def)
  have absent: "filter (\<lambda>cart_item. ci_id cart_item = item_id item) (cart_items cart) = []"
    using assms(4) by (force simp: filter_empty_conv)
  let ?cart2 = "add_item_to (add_item_to cart item) item"
  have "fst (add_to_cart ?s1 cid iid) = Inr ?cart2"
    and "dict_get (carts_db (run s [AddToCart cid iid, AddToCart cid iid])) cid = Some ?cart2"
    and "items_db (run s [AddToCart cid iid, AddToCart cid iid]) = items_db s"
    using second items1 by (simp_all add: dict_get_set)
  moreover have "cart_items ?cart2 = cart_items cart @ [mk_CartItem (item_id item) (item_name item) 2]"
    and price: "cart_price ?cart2
        = float_add (float_add (cart_price cart) (item_price item)) (item_price item)"
    and "cart_id ?cart2 = cart_id cart"
    using assms(4) by (simp_all add: add_item_to_twice)
  moreover have "filter (\<lambda>cart_item. ci_id cart_item = item_id item) (cart_items ?cart2)
        = [mk_CartItem (item_id item) (item_name item) 2]"
    using assms(4) absent by (simp add: add_item_to_twice mk_CartItem_def)
  moreover have "cart_price ?cart2 = Finite (2 * item_price item)"
    if "cart_price cart = Finite 0" "is_float (item_price item)" "\<bar>2 * item_price item\<bar> < 2 ^ 1024"
    unfolding price using that by (simp only: float_add_zero float_add_self)
  ultimately show ?thesis by blast
qed

theorem add_to_cart_twice_witness:
  "dict_get (carts_db (run empty_shop [CreateItem pen, CreateCart])) 1 = Some (mk_Cart 1) \<and>
   dict_get (items_db (run empty_shop [CreateItem pen, CreateCart])) 1
     = Some (mk_Item 1 ''pen'' (3 / 2)) \<and>
   (\<exists>cart2.
      dict_get (carts_db (run empty_shop [CreateItem pen, CreateCart, AddToCart 1 1, AddToCart 1 1])) 1
        = Some cart2 \<and>
      cart_items cart2 = [mk_CartItem 1 ''pen'' 2] \<and> cart_price cart2 = Finite 3)"
proof -
  let ?s = "run empty_shop [CreateItem pen, CreateCart]"
  have cart: "dict_get (carts_db ?s) 1 = Some (mk_Cart 1)"
    by (simp add: handler_defs)
  have item: "dict_get (items_db ?s) 1 = Some (mk_Item 1 ''pen'' (3 / 2))"
    by (simp add: handler_defs)
  have active: "\<not> item_deleted (mk_Item 1 ''pen'' (3 / 2))"
    by (simp add: mk_Item_def)
  have absent: "item_id (mk_Item 1 ''pen'' (3 / 2)) \<notin> set (map ci_id (cart_items (mk_Cart 1)))"
    by (simp add: mk_Cart_def)
  have empty: "cart_price (mk_Cart 1) = Finite 0"
    by (simp add: mk_Cart_def)
  have price: "is_float (item_price (mk_Item 1 ''pen'' (3 / 2)))"
    and small: "\<bar>2 * item_price (mk_Item 1 ''pen'' (3 / 2))\<bar> < 2 ^ 1024"
    by (simp_all add: mk_Item_def is_float_pen)
  have run2: "run empty_shop [CreateItem pen, CreateCart, AddToCart 1 1, AddToCart 1 1]
      = run ?s [AddToCart 1 1, AddToCart 1 1]"
    by simp
  from add_to_cart_twice [OF cart item active absent] empty price small
  obtain cart2 where
    "dict_get (carts_db (run ?s [AddToCart 1 1, AddToCart 1 1])) 1 = Some cart2"
    and "cart_items cart2 = cart_items (mk_Cart 1) @ [mk_CartItem 1 ''pen'' 2]"
    and "cart_price cart2 = Finite (2 * (3 / 2))"
    by (auto simp: mk_Item_def)
  with cart item show ?thesis
    unfolding run2 by (auto simp: mk_Cart_def)
qed

text \<open>
  Claim C2 as stated, a rise of the price by exactly twice the item's price for every
  cart, fails on a cart that has a price already. A cart holds one crate of price
  \<open>10\<^sup>1\<^sup>6\<close>; a stamp of price 1 is added twice. Each sum \<open>10\<^sup>1\<^sup>6 + 1\<close> lies halfway
  between two floats and is rounded to \<open>10\<^sup>1\<^sup>6\<close>, so the price of the cart does not
  rise at all.
\<close>

theorem add_to_cart_twice_counterexample:
  "dict_get (carts_db (run empty_shop [CreateItem crate, CreateItem stamp, CreateCart, AddToCart 1 1])) 1
     = Some \<lparr>cart_id = 1, cart_items = [mk_CartItem 1 ''crate'' 1],
             cart_price = Finite 10000000000000000\<rparr> \<and>
   dict_get (items_db (run empty_shop [CreateItem crate, CreateItem stamp, CreateCart, AddToCart 1 1])) 2
     = Some (mk_Item 2 ''stamp'' 1) \<and>
   dict_get (carts_db (run empty_shop
       [CreateItem crate, CreateItem stamp, CreateCart, AddToCart 1 1, AddToCart 1 2, AddToCart 1 2])) 1
     = Some \<lparr>cart_id = 1, cart_items = [mk_CartItem 1 ''crate'' 1, mk_CartItem 2 ''stamp'' 2],
             cart_price = Finite 10000000000000000\<rparr> \<and>
   Finite 10000000000000000 \<noteq> Finite (10000000000000000 + 2 * 1)"
  by (simp add: handler_defs crate_def stamp_def round_big round_tie)

section \<open>PartialUpdate with a key that is not allowed\<close>

lemma patch_fields_unknown_key:
  "\<exists>key\<in>set (map fst body). key \<notin> allowed_fields \<Longrightarrow>
   fst (patch_fields item body) = Some UnprocessableEntity"
  by (induction item body rule: patch_fields.induct) auto

lemma keys_before_Cons:
  "keys_before ((key, v) # body) = (if key \<in> allowed_fields then key # keys_before body else [])"
  by (simp add: keys_before_def)

lemma setattr_item_other:
  "key \<noteq> ''name'' \<Longrightarrow> item_name (setattr_item item key v) = item_name item"
  "key \<noteq> ''price'' \<Longrightarrow> item_price (setattr_item item key v) = item_price item"
  by (simp_all add: setattr_item_def split: field_value.splits)

lemma patch_fields_name:
  "''name'' \<notin> set (keys_before body) \<Longrightarrow> item_name (snd (patch_fields item body)) = item_name item"
proof (induction body arbitrary: item)
  case Nil
  show ?case by simp
next
  case (Cons kv body)
  obtain key v where kv: "kv = (key, v)" by (cases kv)
  show ?case
  proof (cases "key \<in> allowed_fields")
    case False
    with kv show ?thesis by simp
  next
    case True
    with Cons.prems kv have "key \<noteq> ''name''" and "''name'' \<notin> set (keys_before body)"
      by (auto simp: keys_before_Cons)
    with True kv Cons.IH [of "setattr_item item key v"] show ?thesis
      by (simp add: setattr_item_other)
  qed
qed

lemma patch_fields_price:
  "''price'' \<notin> set (keys_before body) \<Longrightarrow> item_price (snd (patch_fields item body)) = item_price item"
proof (induction body arbitrary: item)
  case Nil
  show ?case by simp
next
  case (Cons kv body)
  obtain key v where kv: "kv = (key, v)" by (cases kv)
  show ?case
  proof (cases "key \<in> allowed_fields")
    case False
    with kv show ?thesis by simp
  next
    case True
    with Cons.prems kv have "key \<noteq> ''price''" and "''price'' \<notin> set (keys_before body)"
      by (auto simp: keys_before_Cons)
    with True kv Cons.IH [of "setattr_item item key v"] show ?thesis
      by (simp add: setattr_item_other)
  qed
qed

lemma patch_fields_first_unknown:
  assumes "\<exists>key\<in>set (map fst body). key \<notin> allowed_fields" and "keys_before body = []"
  shows "patch_fields item body = (Some UnprocessableEntity, item)"
proof (cases body)
  case Nil
  with assms(1) show ?thesis by simp
next
  case (Cons kv rest)
  obtain key v where "kv = (key, v)" by (cases kv)
  with Cons assms(2) show ?thesis
    by (auto simp: keys_before_Cons split: if_splits)
qed

text \<open>
  Claim C1, as the code has it. Let an Item be stored under the id, and let the body hold
  at least one key outside \<open>{name, price}\<close>. If the Item is soft-deleted, \<^verbatim>\<open>patch_item\<close>
  fails with NotModified, not with UnprocessableEntity, and the stores are unchanged: the
  check of \<^verbatim>\<open>item.deleted\<close> comes before the loop over the body. If the Item is not
  soft-deleted, \<^verbatim>\<open>patch_item\<close> fails with UnprocessableEntity, whatever the values of the
  body are. The Item keeps its id and its deleted flag; it keeps its name unless the key
  \<^verbatim>\<open>name\<close> comes before the first key of the body that is not allowed, and its price
  unless the key \<^verbatim>\<open>price\<close> does. When the first key of the body is not allowed, the
  stores are unchanged. The keys of the store, the other Items and the carts are
  unchanged in every case.
\<close>

theorem patch_item_unknown_key:
  assumes "dict_get (items_db s) i = Some item"
    and "\<exists>key\<in>set (map fst body). key \<notin> allowed_fields"
  shows "(item_deleted item \<longrightarrow> patch_item s i body = (Inl NotModified, s)) \<and>
    (\<not> item_deleted item \<longrightarrow>
       fst (patch_item s i body) = Inl UnprocessableEntity \<and>
       (\<exists>item'. dict_get (items_db (snd (patch_item s i body))) i = Some item' \<and>
          item_id item' = item_id item \<and> \<not> item_deleted item' \<and>
          (''name'' \<notin> set (keys_before body) \<longrightarrow> item_name item' = item_name item) \<and>
          (''price'' \<notin> set (keys_before body) \<longrightarrow> item_price item' = item_price item)) \<and>
       (keys_before body = [] \<longrightarrow> snd (patch_item s i body) = s) \<and>
       dict_keys (items_db (snd (patch_item s i body))) = dict_keys (items_db s) \<and>
       (\<forall>j. j \<noteq> i \<longrightarrow>
          dict_get (items_db (snd (patch_item s i body))) j = dict_get (items_db s) j) \<and>
       carts_db (snd (patch_item s i body)) = carts_db s)"
proof -
  obtain err item' where pf: "patch_fields item body = (err, item')"
    by (cases "patch_fields item body")
  then have same: "item_id item' = item_id item" "item_deleted item' = item_deleted item"
    by (simp_all add: patch_fields_id patch_fields_deleted)
  from pf have err: "err = Some UnprocessableEntity"
    using patch_fields_unknown_key [OF assms(2), of item] by simp
  from pf have name: "item_name item' = item_name item" if "''name'' \<notin> set (keys_before body)"
    using patch_fields_name [OF that, of item] by simp
  from pf have price: "item_price item' = item_price item" if "''price'' \<notin> set (keys_before body)"
    using patch_fields_price [OF that, of item] by simp
  from pf have first: "item' = item" if "keys_before body = []"
    using patch_fields_first_unknown [OF assms(2) that, of item] by simp
  from assms(1) have key: "i \<in> set (dict_keys (items_db s))"
    by (rule dict_get_Some_keys)
  have stay: "snd (patch_item s i body) = s" if "\<not> item_deleted item" "keys_before body = []"
    using assms(1) pf that first [OF that(2)] by (simp add: patch_item_def dict_set_same)
  from assms(1) pf same err key name price stay show ?thesis
    by (simp add: patch_item_def dict_get_set dict_keys_set)
qed

theorem patch_item_unknown_key_witness:
  "dict_get (items_db (run empty_shop [CreateItem pen])) 1 = Some (mk_Item 1 ''pen'' (3 / 2)) \<and>
   (\<exists>key\<in>set (map fst [(''color'', StrValue ''red''), (''price'', StrValue ''free'')]).
      key \<notin> allowed_fields) \<and>
   patch_item (run empty_shop [CreateItem pen]) 1
       [(''color'', StrValue ''red''), (''price'', StrValue ''free'')]
     = (Inl UnprocessableEntity, run empty_shop [CreateItem pen]) \<and>
   fst (patch_item (run empty_shop [CreateItem pen]) 1
          [(''price'', StrValue ''free''), (''color'', StrValue ''red'')])
     = Inl UnprocessableEntity"
proof -
  let ?s = "run empty_shop [CreateItem pen]"
  let ?body = "[(''color'', StrValue ''red''), (''price'', StrValue ''free'')]"
  let ?body' = "[(''price'', StrValue ''free''), (''color'', StrValue ''red'')]"
  have stored: "dict_get (items_db ?s) 1 = Some (mk_Item 1 ''pen'' (3 / 2))"
    by (simp add: handler_defs)
  have unknown: "\<exists>key\<in>set (map fst ?body). key \<notin> allowed_fields"
    and unknown': "\<exists>key\<in>set (map fst ?body'). key \<notin> allowed_fields"
    by (simp_all add: allowed_fields_def)
  have before: "keys_before ?body = []"
    by (simp add: keys_before_def allowed_fields_def)
  have active: "\<not> item_deleted (mk_Item 1 ''pen'' (3 / 2))"
    by (simp add: mk_Item_def)
  from patch_item_unknown_key [OF stored unknown] active before
  have "fst (patch_item ?s 1 ?body) = Inl UnprocessableEntity"
    and "snd (patch_item ?s 1 ?body) = ?s"
    by blast+
  then have one: "patch_item ?s 1 ?body = (Inl UnprocessableEntity, ?s)"
    by (simp add: prod_eq_iff)
  from patch_item_unknown_key [OF stored unknown'] active
  have two: "fst (patch_item ?s 1 ?body') = Inl UnprocessableEntity"
    by blast
  from stored unknown one two show ?thesis
    by blast
qed

text \<open>
  Claim C1 as stated fails at two inputs. On a soft-deleted Item the failure is
  NotModified. On an active Item named \<open>pen\<close>, the body \<open>{name: ink, color: red}\<close> fails
  with UnprocessableEntity after \<^verbatim>\<open>setattr\<close> has stored the name \<open>ink\<close>: the loop
  assigns each allowed key as it meets it and raises only at the first key that is not
  allowed, so the keys before it have been applied to the stored object.
\<close>

theorem patch_item_unknown_key_counterexample:
  "patch_item (run empty_shop [CreateItem pen, DeleteItem 1]) 1 [(''color'', StrValue ''red'')]
     = (Inl NotModified, run empty_shop [CreateItem pen, DeleteItem 1]) \<and>
   Inl NotModified \<noteq> (Inl UnprocessableEntity :: error + Item) \<and>
   items_db (run empty_shop [CreateItem pen])
     = [(1, \<lparr>item_id = 1, item_name = ''pen'', item_price = 3 / 2, item_deleted = False\<rparr>)] \<and>
   patch_item (run empty_shop [CreateItem pen]) 1
       [(''name'', StrValue ''ink''), (''color'', StrValue ''red'')]
     = (Inl UnprocessableEntity,
        \<lparr>items_db =
           [(1, \<lparr>item_id = 1, item_name = ''ink'', item_price = 3 / 2, item_deleted = False\<rparr>)],
         carts_db = []\<rparr>)"
  by (simp add: handler_defs)

section \<open>Non-negative prices\<close>

text \<open>
  Every handler but \<^verbatim>\<open>patch_item\<close> keeps the prices of the stored Items non-negative,
  once the boundary has rejected a negative price of an \<^verbatim>\<open>ItemPost\<close>.
\<close>

lemma list_all_values_set:
  "list_all P (dict_values d) \<Longrightarrow> P v \<Longrightarrow> list_all P (dict_values (dict_set d k v))"
  by (induction d) (auto simp: dict_values_def)

lemma list_all_values_get:
  "list_all P (dict_values d) \<Longrightarrow> dict_get d k = Some v \<Longrightarrow> P v"
  by (auto simp: list_all_iff dict_values_def dest!: dict_get_Some_mem)

lemma prices_nonneg_exec:
  assumes "prices_nonneg s" and "valid_request r" and "\<nexists>i body. r = PatchItem i body"
  shows "prices_nonneg (exec s r)"
proof (cases r)
  case (CreateItem item)
  with assms show ?thesis
    by (simp add: prices_nonneg_def create_item_def Let_def list_all_values_set mk_Item_def)
next
  case (UpdateItem i item)
  with assms show ?thesis
    by (simp add: prices_nonneg_def update_item_def Let_def list_all_values_set mk_Item_def)
next
  case (DeleteItem i)
  show ?thesis
  proof (cases "dict_get (items_db s) i")
    case None
    with assms DeleteItem show ?thesis by (simp add: delete_item_def)
  next
    case (Some item)
    with assms(1) have "0 \<le> item_price item"
      using list_all_values_get [of "\<lambda>item. 0 \<le> item_price item" "items_db s" i item]
      by (simp add: prices_nonneg_def)
    with assms(1) Some DeleteItem show ?thesis
      by (simp add: prices_nonneg_def delete_item_def list_all_values_set)
  qed
next
  case (AddToCart cid iid)
  with assms(1) show ?thesis
    by (simp add: prices_nonneg_def add_to_cart_def Let_def split: option.splits)
next
  case (PatchItem i body)
  with assms(3) show ?thesis by simp
qed (use assms(1) in \<open>simp_all add: prices_nonneg_def create_cart_def Let_def\<close>)

text \<open>
  Claim C5 says that PartialUpdate keeps every stored price non-negative as well. The
  code does not: \<^verbatim>\<open>patch_item\<close> assigns the value of the key \<^verbatim>\<open>price\<close> unchecked. After
  the valid requests \<open>POST /item {name: pen, price: 1.5}\<close> and
  \<open>PATCH /item/1 {price: -1}\<close>, the second of which succeeds, the Item is stored with the
  price \<open>-1\<close>.
\<close>

theorem patch_item_negative_price:
  "list_all valid_request [CreateItem pen, PatchItem 1 [(''price'', NumValue (- 1))]] \<and>
   prices_nonneg (run empty_shop [CreateItem pen]) \<and>
   patch_item (run empty_shop [CreateItem pen]) 1 [(''price'', NumValue (- 1))]
     = (Inr \<lparr>item_id = 1, item_name = ''pen'', item_price = - 1, item_deleted = False\<rparr>,
        \<lparr>items_db =
           [(1, \<lparr>item_id = 1, item_name = ''pen'', item_price = - 1, item_deleted = False\<rparr>)],
         carts_db = []\<rparr>) \<and>
   \<not> prices_nonneg (run empty_shop [CreateItem pen, PatchItem 1 [(''price'', NumValue (- 1))]])"
  by (simp add: handler_defs prices_nonneg_def)

end
